theory Spec2Isabelle
  imports Complex_Main
begin

section \<open>Abstract syntax\<close>

text \<open>
  The nodes the parser builds (\<^verbatim>\<open>src/syntax/parser.js\<close>, the \<^verbatim>\<open>astGenerator\<close> table):
  one constructor per node class, with the constructor arguments in the order of the
  \<^verbatim>\<open>new\<close> expressions there. A node that the grammar makes optional
  (\<^verbatim>\<open>unpack\<close> turns an empty match into \<^verbatim>\<open>null\<close>) is an \<open>option\<close>.
  A numeric literal holds a JavaScript number; no operation below reads its value.
  The callee of a \<open>Call\<close> and the targets of an assignment are \<open>VariableExpression\<close>
  nodes (\<^verbatim>\<open>targets: VariableExpression[]\<close>); the model keeps their identifier.
\<close>

datatype expression =
    BooleanLiteral bool
  | NumericLiteral real
  | VariableExpression string
  | UnaryExpression string expression
  | BinaryExpression string expression expression
  | Call string "argument list"
and argument = Argument "string option" expression

datatype parameter = Parameter (pid: string) (defaultExpression: "expression option")

datatype statement =
    AssignmentStatement "string list" "expression list"
  | BreakStatement
  | ReturnStatement "expression option"
  | IfStatement "if_case list" "statement list option"
  | WhileStatement expression "statement list"
  | FunctionDeclaration string "parameter list" "statement list"
and if_case = Case expression "statement list"

text \<open>
  \<^verbatim>\<open>src/src/ast/function-object.ts\<close>: \<^verbatim>\<open>constructor(id, params, body)\<close>. The two name sets
  are not set by the constructor; \<open>analyze\<close> creates them.
\<close>

datatype function_object = FunctionObject string "parameter list" "statement list"

section \<open>Errors\<close>

text \<open>
  Every \<^verbatim>\<open>throw\<close> is a value. The two errors thrown by the code under \<^verbatim>\<open>src/\<close> are
  \<^verbatim>\<open>Error('Required parameter cannot appear after an optional parameter')\<close>, the
  specification's \<open>ParameterOrderError\<close>, and
  \<^verbatim>\<open>Error('Number of variables does not equal number of expressions')\<close>, its
  \<open>ArityMismatchError\<close>. The other kinds are those of the specification's taxonomy;
  the two identifier errors carry the offending identifier.
\<close>

datatype error =
    ParameterOrderError
  | DuplicateDeclarationError string
  | UndeclaredIdentifierError string
  | ArityMismatchError
  | IllegalBreakError
  | IllegalReturnError
  | CallBindingError

section \<open>Context: the scope chain\<close>

text \<open>
  Modelled from the spec: the \<^verbatim>\<open>Context\<close> class (\<^verbatim>\<open>semantics/context\<close>) is imported by
  the sources but is not among them. A declaration (a \<^verbatim>\<open>Referent\<close> in
  \<^verbatim>\<open>function-object.ts\<close>) is a node that introduces a name: a function, with the two
  parameter-name sets that analysis attaches to it, or a parameter.
\<close>

datatype referent =
    DeclaredFunction string "parameter list" "string list" "string list"
  | DeclaredParameter parameter

text \<open>Modelled from the spec: the name under which a declaration is bound.\<close>

fun declaredName :: "referent \<Rightarrow> string" where
  "declaredName (DeclaredFunction fid ps required all) = fid"
| "declaredName (DeclaredParameter p) = pid p"

text \<open>
  Modelled from the spec: one lexical scope holds a mapping from identifiers to declarations
  (kept in insertion order), a possibly absent parent, and the two flags \<open>inLoop\<close> and
  \<open>function\<close> (here \<open>enclosingFunction\<close>, the identifier of the enclosing function).
  A child refers to its parent; the model stores the parent's value in the child, and the
  one place where a parent is changed while a child of it is alive
  (\<open>FunctionDeclaration.analyze\<close>) writes the changed parent into the child.
\<close>

datatype "context" =
  Context (declarations: "(string \<times> referent) list")
          (parent: "context option")
          (inLoop: bool)
          (enclosingFunction: "string option")

text \<open>Modelled from the spec: the root context has no parent and is in no loop or function.\<close>

definition rootContext :: "context" where
  "rootContext = Context [] None False None"

text \<open>Modelled from the spec: \<open>createChildContext()\<close>, the flags inherited.\<close>

definition createChildContext :: "context \<Rightarrow> context" where
  "createChildContext c = Context [] (Some c) (inLoop c) (enclosingFunction c)"

text \<open>
  Modelled from the spec: a function-body context resets \<open>function\<close> to the function
  and \<open>inLoop\<close> to false, also inside a loop.
\<close>

definition createChildContextForFunctionBody :: "context \<Rightarrow> string \<Rightarrow> context" where
  "createChildContextForFunctionBody c fid = Context [] (Some c) False (Some fid)"

text \<open>Modelled from the spec: the body of a loop is analyzed with \<open>inLoop\<close> set.\<close>

definition createChildContextForLoop :: "context \<Rightarrow> context" where
  "createChildContextForLoop c = Context [] (Some c) True (enclosingFunction c)"

text \<open>
  The child \<open>c\<close> seen after its parent has changed to \<open>p\<close>: the same scope, with the
  parent's new value behind it.
\<close>

definition withParent :: "context \<Rightarrow> context \<Rightarrow> context" where
  "withParent c p = Context (declarations c) (Some p) (inLoop c) (enclosingFunction c)"

text \<open>
  Modelled from the spec: \<open>addVariable(decl)\<close> fails with \<open>DuplicateDeclarationError\<close> if
  the name exists in this scope, otherwise inserts.
\<close>

definition addVariable :: "context \<Rightarrow> referent \<Rightarrow> error + context" where
  "addVariable c d =
     (if declaredName d \<in> fst ` set (declarations c)
      then Inl (DuplicateDeclarationError (declaredName d))
      else Inr (Context (declarations c @ [(declaredName d, d)]) (parent c)
                  (inLoop c) (enclosingFunction c)))"

text \<open>
  Modelled from the spec: \<open>lookup(name)\<close> searches this scope, then the parent, then the
  grandparent, and fails with \<open>UndeclaredIdentifierError\<close> when the chain is exhausted.
\<close>

fun lookup :: "context \<Rightarrow> string \<Rightarrow> error + referent" where
  "lookup (Context ds None l f) name =
     (case map_of ds name of
        Some d \<Rightarrow> Inr d
      | None \<Rightarrow> Inl (UndeclaredIdentifierError name))"
| "lookup (Context ds (Some p) l f) name =
     (case map_of ds name of
        Some d \<Rightarrow> Inr d
      | None \<Rightarrow> lookup p name)"

text \<open>
  The scopes of a chain, innermost first, and whether a scope's own mapping binds a name:
  the two notions in which the properties of \<open>lookup\<close> and \<open>addVariable\<close> are stated.
\<close>

fun scopeChain :: "context \<Rightarrow> context list" where
  "scopeChain (Context ds None l f) = [Context ds None l f]"
| "scopeChain (Context ds (Some p) l f) = Context ds (Some p) l f # scopeChain p"

definition declares :: "string \<Rightarrow> context \<Rightarrow> bool" where
  "declares name c = (map_of (declarations c) name \<noteq> None)"

section \<open>Semantic analysis\<close>

text \<open>
  \<open>node.analyze(context)\<close> returns nothing and may throw; what it changes is the context
  it is given. It is modelled by a function from the context to an error or the context
  after the call. \<open>xs.forEach(x => x.analyze(context))\<close> visits the elements in order and
  stops at the first throw.
\<close>

fun forEach :: "('a \<Rightarrow> 's \<Rightarrow> error + 's) \<Rightarrow> 'a list \<Rightarrow> 's \<Rightarrow> error + 's" where
  "forEach f [] s = Inr s"
| "forEach f (x # xs) s = (case f x s of Inl e \<Rightarrow> Inl e | Inr s' \<Rightarrow> forEach f xs s')"

subsection \<open>Expressions\<close>

text \<open>
  Modelled from the spec: \<open>VariableExpression.analyze\<close> (not among the sources) resolves
  the identifier with \<open>context.lookup\<close>.
\<close>

definition VariableExpression_analyze :: "string \<Rightarrow> context \<Rightarrow> error + context" where
  "VariableExpression_analyze x c = (case lookup c x of Inl e \<Rightarrow> Inl e | Inr d \<Rightarrow> Inr c)"

text \<open>
  Modelled from the spec: the binding check of \<open>Call.analyze\<close> (not among the sources).
  An argument binds by position, or by name when it has one; an unknown argument name or a
  required parameter left unbound is a \<open>CallBindingError\<close>. The sets are read in insertion
  order, as a JavaScript \<open>Set\<close> is.
\<close>

fun boundNames :: "string list \<Rightarrow> nat \<Rightarrow> argument list \<Rightarrow> string list" where
  "boundNames all i [] = []"
| "boundNames all i (Argument (Some name) e # as) = name # boundNames all (Suc i) as"
| "boundNames all i (Argument None e # as) =
     (if i < length all then all ! i # boundNames all (Suc i) as
      else boundNames all (Suc i) as)"

text \<open>
  Modelled from the spec: the binding is valid when every bound name is a parameter name
  and every required parameter is bound; only a function can be called.
\<close>

fun argumentsBind :: "argument list \<Rightarrow> referent \<Rightarrow> bool" where
  "argumentsBind args (DeclaredFunction fid ps required all) =
     (set (boundNames all 0 args) \<subseteq> set all \<and> set required \<subseteq> set (boundNames all 0 args))"
| "argumentsBind args (DeclaredParameter p) = False"

text \<open>
  Modelled from the spec: literals have no analysis effect, unary and binary expressions
  recurse into their operands, and \<open>Call.analyze\<close> resolves the callee, then analyzes each
  argument expression, then validates the binding.
\<close>

fun Expression_analyze :: "expression \<Rightarrow> context \<Rightarrow> error + context"
and Arguments_analyze :: "argument list \<Rightarrow> context \<Rightarrow> error + context" where
  "Expression_analyze (BooleanLiteral b) c = Inr c"
| "Expression_analyze (NumericLiteral n) c = Inr c"
| "Expression_analyze (VariableExpression x) c = VariableExpression_analyze x c"
| "Expression_analyze (UnaryExpression op e) c = Expression_analyze e c"
| "Expression_analyze (BinaryExpression op l r) c =
     (case Expression_analyze l c of
        Inl e \<Rightarrow> Inl e
      | Inr c' \<Rightarrow> Expression_analyze r c')"
| "Expression_analyze (Call callee args) c =
     (case lookup c callee of
        Inl e \<Rightarrow> Inl e
      | Inr d \<Rightarrow>
          (case Arguments_analyze args c of
             Inl e \<Rightarrow> Inl e
           | Inr c' \<Rightarrow> if argumentsBind args d then Inr c' else Inl CallBindingError))"
| "Arguments_analyze [] c = Inr c"
| "Arguments_analyze (Argument name e # as) c =
     (case Expression_analyze e c of
        Inl err \<Rightarrow> Inl err
      | Inr c' \<Rightarrow> Arguments_analyze as c')"

subsection \<open>Parameters\<close>

text \<open>
  Modelled from the spec: a parameter without a default expression is required
  (\<open>isRequired\<close> is a getter of the \<open>Parameter\<close> class, not among the sources).
\<close>

definition isRequired :: "parameter \<Rightarrow> bool" where
  "isRequired p = (defaultExpression p = None)"

text \<open>
  Modelled from the spec: \<open>Parameter.analyze\<close> (not among the sources) analyzes the default
  expression in the function's scope and declares the parameter there.
\<close>

definition Parameter_analyze :: "parameter \<Rightarrow> context \<Rightarrow> error + context" where
  "Parameter_analyze p c =
     (case defaultExpression p of
        None \<Rightarrow> addVariable c (DeclaredParameter p)
      | Some e \<Rightarrow>
          (case Expression_analyze e c of
             Inl err \<Rightarrow> Inl err
           | Inr c' \<Rightarrow> addVariable c' (DeclaredParameter p)))"

subsection \<open>The parameter-order scan\<close>

text \<open>
  A JavaScript \<open>Set\<close> keeps its elements in insertion order without duplicates:
  \<open>add\<close> appends an element that is not there yet, \<open>size\<close> is the length.
\<close>

definition Set_add :: "'a \<Rightarrow> 'a list \<Rightarrow> 'a list" where
  "Set_add x s = (if x \<in> set s then s else s @ [x])"

text \<open>
  \<^verbatim>\<open>function-object.ts\<close> lines 25 to 33 (the same loop is in \<^verbatim>\<open>parser.js\<close>, lines 109 to
  117 and 158 to 166): the body of the second \<open>forEach\<close>, on the pair
  \<open>(requiredParameterNames, allParameterNames)\<close>.
\<close>

fun scanParameter ::
  "parameter \<Rightarrow> string list \<times> string list \<Rightarrow> error + string list \<times> string list" where
  "scanParameter p (requiredParameterNames, allParameterNames) =
     (let allParameterNames = Set_add (pid p) allParameterNames in
      if isRequired p then
        (let requiredParameterNames = Set_add (pid p) requiredParameterNames in
         if length requiredParameterNames < length allParameterNames
         then Inl ParameterOrderError
         else Inr (requiredParameterNames, allParameterNames))
      else Inr (requiredParameterNames, allParameterNames))"

text \<open>Lines 23 to 33: both sets start empty, then the parameters are scanned in order.\<close>

definition gatherParameterNames ::
  "parameter list \<Rightarrow> error + string list \<times> string list" where
  "gatherParameterNames params = forEach scanParameter params ([], [])"

subsection \<open>Statements\<close>

text \<open>
  \<^verbatim>\<open>function-object.ts\<close> lines 59 to 65, \<open>AssignmentStatement.analyze\<close>.
\<close>

definition AssignmentStatement_analyze ::
  "string list \<Rightarrow> expression list \<Rightarrow> context \<Rightarrow> error + context" where
  "AssignmentStatement_analyze targets sources c =
     (if length targets \<noteq> length sources then Inl ArityMismatchError
      else
        (case forEach Expression_analyze sources c of
           Inl e \<Rightarrow> Inl e
         | Inr c' \<Rightarrow> forEach VariableExpression_analyze targets c'))"

text \<open>
  Modelled from the spec: the clauses for \<open>BreakStatement\<close>, \<open>ReturnStatement\<close>,
  \<open>IfStatement\<close> and \<open>WhileStatement\<close>, whose classes are not among the sources. The
  clauses for \<open>AssignmentStatement\<close> and \<open>FunctionDeclaration\<close> follow the sources
  (\<^verbatim>\<open>parser.js\<close> lines 147 to 183 for the latter); together they are the \<open>analyze\<close> of
  every statement class.

  A body analyzed in a child context leaves the enclosing context as it was: a statement
  adds names to the context it is analyzed in and to no ancestor of it. In
  \<open>FunctionDeclaration.analyze\<close> the local context is created first, the function is added
  to the outer context after the parameters, and the body then sees the outer context with
  the function in it through the local context's parent.
\<close>

fun Statement_analyze :: "statement \<Rightarrow> context \<Rightarrow> error + context"
and Body_analyze :: "statement list \<Rightarrow> context \<Rightarrow> error + context"
and Cases_analyze :: "if_case list \<Rightarrow> context \<Rightarrow> error + context" where
  "Statement_analyze (AssignmentStatement targets sources) c =
     AssignmentStatement_analyze targets sources c"
| "Statement_analyze BreakStatement c =
     (if inLoop c then Inr c else Inl IllegalBreakError)"
| "Statement_analyze (ReturnStatement None) c =
     (if enclosingFunction c = None then Inl IllegalReturnError else Inr c)"
| "Statement_analyze (ReturnStatement (Some e)) c =
     (if enclosingFunction c = None then Inl IllegalReturnError else Expression_analyze e c)"
| "Statement_analyze (IfStatement cases None) c = Cases_analyze cases c"
| "Statement_analyze (IfStatement cases (Some alternate)) c =
     (case Cases_analyze cases c of
        Inl e \<Rightarrow> Inl e
      | Inr c' \<Rightarrow>
          (case Body_analyze alternate (createChildContext c') of
             Inl e \<Rightarrow> Inl e
           | Inr child \<Rightarrow> Inr c'))"
| "Statement_analyze (WhileStatement test body) c =
     (case Expression_analyze test c of
        Inl e \<Rightarrow> Inl e
      | Inr c' \<Rightarrow>
          (case Body_analyze body (createChildContextForLoop c') of
             Inl e \<Rightarrow> Inl e
           | Inr child \<Rightarrow> Inr c'))"
| "Statement_analyze (FunctionDeclaration fid params body) c =
     (let localContext = createChildContextForFunctionBody c fid in
      case forEach Parameter_analyze params localContext of
        Inl e \<Rightarrow> Inl e
      | Inr localContext \<Rightarrow>
          (case gatherParameterNames params of
             Inl e \<Rightarrow> Inl e
           | Inr (requiredParameterNames, allParameterNames) \<Rightarrow>
               (case addVariable c
                       (DeclaredFunction fid params requiredParameterNames allParameterNames) of
                  Inl e \<Rightarrow> Inl e
                | Inr c' \<Rightarrow>
                    (case Body_analyze body (withParent localContext c') of
                       Inl e \<Rightarrow> Inl e
                     | Inr child \<Rightarrow> Inr c'))))"
| "Body_analyze [] c = Inr c"
| "Body_analyze (s # ss) c =
     (case Statement_analyze s c of
        Inl e \<Rightarrow> Inl e
      | Inr c' \<Rightarrow> Body_analyze ss c')"
| "Cases_analyze [] c = Inr c"
| "Cases_analyze (Case test body # cases) c =
     (case Expression_analyze test c of
        Inl e \<Rightarrow> Inl e
      | Inr c' \<Rightarrow>
          (case Body_analyze body (createChildContext c') of
             Inl e \<Rightarrow> Inl e
           | Inr child \<Rightarrow> Cases_analyze cases c'))"

text \<open>
  \<^verbatim>\<open>function-object.ts\<close> lines 17 to 43, \<open>FunctionObject.analyze\<close>: the parameters, the scan
  and the body, all in the context the caller passes. The result holds the two sets the
  call leaves in the object and the context.
\<close>

fun FunctionObject_analyze ::
  "function_object \<Rightarrow> context \<Rightarrow> error + (string list \<times> string list) \<times> context" where
  "FunctionObject_analyze (FunctionObject fid params body) c =
     (case forEach Parameter_analyze params c of
        Inl e \<Rightarrow> Inl e
      | Inr c' \<Rightarrow>
          (case gatherParameterNames params of
             Inl e \<Rightarrow> Inl e
           | Inr names \<Rightarrow>
               (case Body_analyze body c' of
                  Inl e \<Rightarrow> Inl e
                | Inr c'' \<Rightarrow> Inr (names, c''))))"

section \<open>Optimization\<close>

text \<open>
  \<open>node.optimize()\<close> may change the node it is called on and returns a reference: the
  node itself, another node, or \<open>null\<close>. A call is modelled by the pair of the node after
  the call and the reference returned.
\<close>

datatype 'n returned = ReturnsThis | ReturnsNode 'n | ReturnsNull

text \<open>What a caller that stores the returned reference holds: a node, or \<open>null\<close>.\<close>

fun received :: "'n \<times> 'n returned \<Rightarrow> 'n option" where
  "received (n, ReturnsThis) = Some n"
| "received (n, ReturnsNode m) = Some m"
| "received (n, ReturnsNull) = None"

text \<open>
  \<^verbatim>\<open>function-object.ts\<close> lines 45 to 51 (\<^verbatim>\<open>parser.js\<close> lines 128 to 134),
  \<open>FunctionObject.optimize\<close>. The \<open>optimize\<close> methods of the parameters and of the body's
  statements belong to classes that are not among the sources: they are the arguments
  \<open>optimizeParameter\<close> and \<open>optimizeStatement\<close>. \<open>forEach\<close> discards what its callback
  returns, so each element stays in its list as the call left it; the filter then keeps the
  elements that are not \<open>null\<close>.
\<close>

fun FunctionObject_optimize ::
  "(parameter \<Rightarrow> parameter \<times> parameter returned) \<Rightarrow>
   (statement \<Rightarrow> statement \<times> statement returned) \<Rightarrow>
   function_object \<Rightarrow> function_object \<times> function_object returned" where
  "FunctionObject_optimize optimizeParameter optimizeStatement (FunctionObject fid params body) =
     (let params = map (\<lambda>p. fst (optimizeParameter p)) params;
          body = map (\<lambda>s. fst (optimizeStatement s)) body;
          body = filter (\<lambda>s. Some s \<noteq> None) body
      in (FunctionObject fid params body, ReturnsThis))"

subsection \<open>An optimizer for the other node classes\<close>

text \<open>
  Modelled from the spec: a part of the \<open>optimize\<close> methods of the expression, parameter
  and statement classes, none of which is among the sources. Each optimizes its children
  first, storing what they return, then applies its rewrite. Of the rewrites the
  specification lists, the model has only those whose outcome is a node or a removal and
  that need no arithmetic on JavaScript numbers: folding of \<open>And\<close> and \<open>Or\<close> over boolean
  literals, dropping of statically false branches, and removal of an assignment of
  variables to themselves. It does not fold numeric, comparison or unary operators, and it
  does not replace an \<open>if\<close> by the statements of a statically true branch or of its
  else-body. It serves to evaluate \<open>FunctionObject.optimize\<close> on statements whose
  \<open>optimize\<close> returns the removal sentinel; nothing is proved about the optimizer as a
  whole.
\<close>

fun foldBinary :: "string \<Rightarrow> expression \<Rightarrow> expression \<Rightarrow> expression" where
  "foldBinary op (BooleanLiteral a) (BooleanLiteral b) =
     (if op = ''And'' then BooleanLiteral (a \<and> b)
      else if op = ''Or'' then BooleanLiteral (a \<or> b)
      else BinaryExpression op (BooleanLiteral a) (BooleanLiteral b))"
| "foldBinary op l r = BinaryExpression op l r"

text \<open>
  Modelled from the spec: an expression optimizes its operands bottom-up and folds, here
  the boolean operators only; it is never removed, so the function gives the node the
  caller receives.
\<close>

fun Expression_optimize :: "expression \<Rightarrow> expression"
and Argument_optimize :: "argument \<Rightarrow> argument" where
  "Expression_optimize (BooleanLiteral b) = BooleanLiteral b"
| "Expression_optimize (NumericLiteral n) = NumericLiteral n"
| "Expression_optimize (VariableExpression x) = VariableExpression x"
| "Expression_optimize (UnaryExpression op e) = UnaryExpression op (Expression_optimize e)"
| "Expression_optimize (BinaryExpression op l r) =
     foldBinary op (Expression_optimize l) (Expression_optimize r)"
| "Expression_optimize (Call callee args) = Call callee (map Argument_optimize args)"
| "Argument_optimize (Argument name e) = Argument name (Expression_optimize e)"

text \<open>
  Modelled from the spec: a parameter stores the optimized default expression and returns
  itself.
\<close>

definition Parameter_optimize :: "parameter \<Rightarrow> parameter \<times> parameter returned" where
  "Parameter_optimize p =
     (Parameter (pid p) (map_option Expression_optimize (defaultExpression p)), ReturnsThis)"

text \<open>Modelled from the spec: a branch whose condition has folded to \<open>false\<close>.\<close>

definition isStaticallyFalse :: "if_case \<Rightarrow> bool" where
  "isStaticallyFalse k = (case k of Case test body \<Rightarrow> test = BooleanLiteral False)"

text \<open>
  Modelled from the spec: the \<open>optimize\<close> of the statement classes, with the limits said
  above. A statement list (\<open>Body_optimize\<close>) stores what each statement's \<open>optimize\<close>
  returns and filters out the removed entries. The \<open>FunctionDeclaration\<close> class among the
  sources defines no \<open>optimize\<close>; the clause for it only makes the function total,
  treating a nested declaration as \<open>FunctionObject.optimize\<close> treats a function, and no
  property below evaluates it.
\<close>

fun Statement_optimize :: "statement \<Rightarrow> statement \<times> statement returned"
and Body_optimize :: "statement list \<Rightarrow> statement list"
and Case_optimize :: "if_case \<Rightarrow> if_case" where
  "Statement_optimize (AssignmentStatement targets sources) =
     (let sources = map Expression_optimize sources in
      (AssignmentStatement targets sources,
       if targets \<noteq> [] \<and> sources = map VariableExpression targets
       then ReturnsNull else ReturnsThis))"
| "Statement_optimize BreakStatement = (BreakStatement, ReturnsThis)"
| "Statement_optimize (ReturnStatement e) =
     (ReturnStatement (map_option Expression_optimize e), ReturnsThis)"
| "Statement_optimize (IfStatement cases alternate) =
     (let cases = filter (\<lambda>k. \<not> isStaticallyFalse k) (map Case_optimize cases);
          alternate = map_option Body_optimize alternate
      in (IfStatement cases alternate,
          if cases = [] \<and> alternate = None then ReturnsNull else ReturnsThis))"
| "Statement_optimize (WhileStatement test body) =
     (WhileStatement (Expression_optimize test) (Body_optimize body), ReturnsThis)"
| "Statement_optimize (FunctionDeclaration fid params body) =
     (FunctionDeclaration fid
        (map (\<lambda>p. fst (Parameter_optimize p)) params)
        (filter (\<lambda>s. Some s \<noteq> None) (map (\<lambda>s. fst (Statement_optimize s)) body)),
      ReturnsThis)"
| "Body_optimize [] = []"
| "Body_optimize (s # ss) =
     (case received (Statement_optimize s) of
        None \<Rightarrow> Body_optimize ss
      | Some s' \<Rightarrow> s' # Body_optimize ss)"
| "Case_optimize (Case test body) = Case (Expression_optimize test) (Body_optimize body)"

section \<open>The compiler driver\<close>

text \<open>
  \<^verbatim>\<open>plainscript.ts\<close> lines 32 to 51. The options are optional booleans; an absent one is
  falsy. \<open>parse\<close>, \<open>util.inspect\<close> and the \<open>analyze\<close>, \<open>optimize\<close> and \<open>gen\<close> methods of the
  program node are imported; they are the arguments of \<open>compile\<close>, each of the last three
  with the program it leaves behind or returns. A phase that throws ends the call.
\<close>

record ICompileOptions =
  astOnly :: "bool option"
  frontEndOnly :: "bool option"
  shouldOptimize :: "bool option"

definition truthy :: "bool option \<Rightarrow> bool" where
  "truthy b = (b = Some True)"

definition compile ::
  "(string \<Rightarrow> 'e + 'p) \<Rightarrow> ('p \<Rightarrow> string) \<Rightarrow> ('p \<Rightarrow> 'e + 'p) \<Rightarrow> ('p \<Rightarrow> 'e + 'p) \<Rightarrow>
   ('p \<Rightarrow> 'e + string) \<Rightarrow> string \<Rightarrow> ICompileOptions \<Rightarrow> 'e + string" where
  "compile parse inspect analyze optimize gen sourceCode options =
     (case parse sourceCode of
        Inl e \<Rightarrow> Inl e
      | Inr program \<Rightarrow>
          if truthy (astOnly options) then Inr (inspect program)
          else
            (case analyze program of
               Inl e \<Rightarrow> Inl e
             | Inr program \<Rightarrow>
                 if truthy (frontEndOnly options) then Inr (inspect program)
                 else if truthy (shouldOptimize options) then
                   (case optimize program of
                      Inl e \<Rightarrow> Inl e
                    | Inr optimized \<Rightarrow> gen optimized)
                 else gen program))"

text \<open>
  Modelled from the spec: \<open>Program.analyze\<close> (not among the sources) creates the root
  context and analyzes the statements of the program in it.
\<close>

definition Program_analyze :: "statement list \<Rightarrow> error + statement list" where
  "Program_analyze body =
     (case Body_analyze body rootContext of
        Inl e \<Rightarrow> Inl e
      | Inr c \<Rightarrow> Inr body)"

section \<open>Predicates used to state the properties\<close>

text \<open>
  A required parameter stands at a position strictly after an optional one.
\<close>

definition requiredFollowsOptional :: "parameter list \<Rightarrow> bool" where
  "requiredFollowsOptional ps =
     (\<exists>j < length ps. \<exists>i < j. \<not> isRequired (ps ! i) \<and> isRequired (ps ! j))"








section \<open>The scope chain: lookup and addVariable\<close>

lemma lookup_unfold:
  "lookup c name =
     (case map_of (declarations c) name of
        Some d \<Rightarrow> Inr d
      | None \<Rightarrow>
          (case parent c of
             None \<Rightarrow> Inl (UndeclaredIdentifierError name)
           | Some p \<Rightarrow> lookup p name))"
  by (cases "(c, name)" rule: lookup.cases) (auto split: option.splits)


lemma lookup_find:
  "lookup c name =
     (case List.find (declares name) (scopeChain c) of
        None \<Rightarrow> Inl (UndeclaredIdentifierError name)
      | Some s \<Rightarrow> Inr (the (map_of (declarations s) name)))"
  by (induction c name rule: lookup.induct) (auto simp: declares_def split: option.splits)

text \<open>
  C7. \<open>lookup\<close> returns the binding of the first scope, counted from the innermost one
  outwards, that declares the name, and fails with \<open>UndeclaredIdentifierError\<close> when no
  scope of the chain declares it. In particular a binding of the innermost scope is the
  one returned, whatever the enclosing scopes declare: shadowing is no error.
\<close>

theorem lookup_nearest_declaration:
  "lookup c name =
     (case List.find (declares name) (scopeChain c) of
        None \<Rightarrow> Inl (UndeclaredIdentifierError name)
      | Some s \<Rightarrow> Inr (the (map_of (declarations s) name)))
   \<and> (map_of ds name = Some d \<longrightarrow> lookup (Context ds (Some outer) l f) name = Inr d)
   \<and> ((\<forall>s \<in> set (scopeChain c). \<not> declares name s) \<longrightarrow>
        lookup c name = Inl (UndeclaredIdentifierError name))"
proof -
  have "(\<forall>s \<in> set (scopeChain c). \<not> declares name s) \<Longrightarrow>
      List.find (declares name) (scopeChain c) = None"
    by (simp add: find_None_iff)
  then show ?thesis
    using lookup_find[of c name] by simp
qed

theorem lookup_nearest_declaration_witness:
  "lookup (Context [(''x'', DeclaredParameter (Parameter ''x'' None))]
            (Some (Context [(''x'', DeclaredFunction ''x'' [] [] []),
                            (''y'', DeclaredFunction ''y'' [] [] [])] None False None))
            False None) ''x''
     = Inr (DeclaredParameter (Parameter ''x'' None))
   \<and> lookup (Context [(''x'', DeclaredParameter (Parameter ''x'' None))]
            (Some (Context [(''x'', DeclaredFunction ''x'' [] [] []),
                            (''y'', DeclaredFunction ''y'' [] [] [])] None False None))
            False None) ''y''
     = Inr (DeclaredFunction ''y'' [] [] [])
   \<and> lookup (Context [(''x'', DeclaredParameter (Parameter ''x'' None))]
            (Some (Context [] None False None)) False None) ''z''
     = Inl (UndeclaredIdentifierError ''z'')"
proof -
  let ?outer = "Context [(''x'', DeclaredFunction ''x'' [] [] []),
                         (''y'', DeclaredFunction ''y'' [] [] [])] None False None"
  let ?ds = "[(''x'', DeclaredParameter (Parameter ''x'' None))]"
  have a: "map_of ?ds ''x'' = Some (DeclaredParameter (Parameter ''x'' None))"
    by simp
  have b: "\<forall>s \<in> set (scopeChain (Context ?ds (Some (Context [] None False None)) False None)).
             \<not> declares ''z'' s"
    by (simp add: declares_def)
  from lookup_nearest_declaration[of "Context ?ds (Some ?outer) False None" "''x''"
         ?ds "DeclaredParameter (Parameter ''x'' None)" ?outer False None] a
  have 1: "lookup (Context ?ds (Some ?outer) False None) ''x''
             = Inr (DeclaredParameter (Parameter ''x'' None))"
    by blast
  from lookup_nearest_declaration[of "Context ?ds (Some ?outer) False None" "''y''"]
  have 2: "lookup (Context ?ds (Some ?outer) False None) ''y''
             = Inr (DeclaredFunction ''y'' [] [] [])"
    by (simp add: declares_def)
  from lookup_nearest_declaration[of
         "Context ?ds (Some (Context [] None False None)) False None" "''z''"] b
  have 3: "lookup (Context ?ds (Some (Context [] None False None)) False None) ''z''
             = Inl (UndeclaredIdentifierError ''z'')"
    by blast
  from 1 2 3 show ?thesis by blast
qed

lemma addVariable_duplicate:
  "(addVariable c d = Inl (DuplicateDeclarationError (declaredName d)))
     = declares (declaredName d) c"
  by (auto simp: addVariable_def declares_def map_of_eq_None_iff)

lemma addVariable_fresh:
  "\<not> declares (declaredName d) c \<Longrightarrow>
     addVariable c d =
       Inr (Context (declarations c @ [(declaredName d, d)]) (parent c)
              (inLoop c) (enclosingFunction c))"
  by (auto simp: addVariable_def declares_def map_of_eq_None_iff)

text \<open>
  C8. \<open>addVariable\<close> fails, and then with \<open>DuplicateDeclarationError\<close>, exactly when the
  name is bound in the scope's own mapping; the parent chain \<open>p\<close> is arbitrary and plays
  no part. Otherwise the call succeeds, and afterwards the name resolves to the
  declaration, every other name resolves as before, and the parent is the same.
\<close>

theorem addVariable_duplicate_in_same_scope:
  "((\<exists>e. addVariable (Context ds p l f) d = Inl e) = (map_of ds (declaredName d) \<noteq> None))
   \<and> ((addVariable (Context ds p l f) d = Inl (DuplicateDeclarationError (declaredName d)))
        = (map_of ds (declaredName d) \<noteq> None))
   \<and> (map_of ds (declaredName d) = None \<longrightarrow>
        (\<exists>c'. addVariable (Context ds p l f) d = Inr c'
           \<and> lookup c' (declaredName d) = Inr d
           \<and> (\<forall>n. n \<noteq> declaredName d \<longrightarrow> lookup c' n = lookup (Context ds p l f) n)
           \<and> parent c' = p))"
proof -
  let ?c = "Context ds p l f"
  have dup: "(addVariable ?c d = Inl (DuplicateDeclarationError (declaredName d)))
      = (map_of ds (declaredName d) \<noteq> None)"
    using addVariable_duplicate[of ?c d] by (simp add: declares_def)
  have any: "(\<exists>e. addVariable ?c d = Inl e) = (map_of ds (declaredName d) \<noteq> None)"
    by (auto simp: addVariable_def map_of_eq_None_iff)
  have fresh: "\<exists>c'. addVariable ?c d = Inr c'
           \<and> lookup c' (declaredName d) = Inr d
           \<and> (\<forall>n. n \<noteq> declaredName d \<longrightarrow> lookup c' n = lookup ?c n)
           \<and> parent c' = p" if none: "map_of ds (declaredName d) = None"
  proof -
    have a: "addVariable ?c d = Inr (Context (ds @ [(declaredName d, d)]) p l f)"
      using addVariable_fresh[of d ?c] none by (simp add: declares_def)
    have b: "lookup (Context (ds @ [(declaredName d, d)]) p l f) (declaredName d) = Inr d"
      using none by (subst lookup_unfold) (simp add: map_add_def)
    have c: "lookup (Context (ds @ [(declaredName d, d)]) p l f) n = lookup ?c n"
      if "n \<noteq> declaredName d" for n
      using that
      by (subst lookup_unfold, subst (2) lookup_unfold)
         (simp add: map_add_def split: option.splits)
    from a b c show ?thesis by simp
  qed
  from dup any fresh show ?thesis by blast
qed

theorem addVariable_duplicate_in_same_scope_witness:
  "addVariable (Context [] (Some (Context [(''x'', DeclaredFunction ''x'' [] [] [])]
                                     None False None)) False None)
               (DeclaredParameter (Parameter ''x'' None))
     \<noteq> Inl (DuplicateDeclarationError ''x'')
   \<and> addVariable (Context [(''x'', DeclaredFunction ''x'' [] [] [])] None False None)
               (DeclaredParameter (Parameter ''x'' None))
     = Inl (DuplicateDeclarationError ''x'')
   \<and> (\<exists>c'. addVariable (Context [] (Some (Context [(''x'', DeclaredFunction ''x'' [] [] [])]
                                     None False None)) False None)
               (DeclaredParameter (Parameter ''x'' None)) = Inr c'
          \<and> lookup c' ''x'' = Inr (DeclaredParameter (Parameter ''x'' None)))"
proof -
  let ?outer = "Context [(''x'', DeclaredFunction ''x'' [] [] [])] None False None"
  let ?d = "DeclaredParameter (Parameter ''x'' None)"
  from addVariable_duplicate_in_same_scope[of "[]" "Some ?outer" False None ?d]
  have 1: "addVariable (Context [] (Some ?outer) False None) ?d
             \<noteq> Inl (DuplicateDeclarationError ''x'')"
    and 3: "\<exists>c'. addVariable (Context [] (Some ?outer) False None) ?d = Inr c'
          \<and> lookup c' ''x'' = Inr ?d"
    by auto
  from addVariable_duplicate_in_same_scope[of
         "[(''x'', DeclaredFunction ''x'' [] [] [])]" None False None ?d]
  have 2: "addVariable ?outer ?d = Inl (DuplicateDeclarationError ''x'')"
    by simp
  from 1 2 3 show ?thesis by blast
qed

section \<open>The parameter-order scan\<close>

lemma forEach_append:
  "forEach f (xs @ ys) s = (case forEach f xs s of Inl e \<Rightarrow> Inl e | Inr s' \<Rightarrow> forEach f ys s')"
  by (induction xs arbitrary: s) (auto split: sum.splits)

lemma gather_snoc:
  "gatherParameterNames (ps @ [p]) =
     (case gatherParameterNames ps of Inl e \<Rightarrow> Inl e | Inr names \<Rightarrow> scanParameter p names)"
  by (simp add: gatherParameterNames_def forEach_append split: sum.splits)

lemma set_Set_add: "set (Set_add x s) = insert x (set s)"
  by (auto simp: Set_add_def)

lemma distinct_Set_add: "distinct s \<Longrightarrow> distinct (Set_add x s)"
  by (auto simp: Set_add_def)

lemma gather_error: "gatherParameterNames ps = Inl e \<Longrightarrow> e = ParameterOrderError"
proof (induction ps arbitrary: e rule: rev_induct)
  case Nil
  then show ?case by (simp add: gatherParameterNames_def)
next
  case (snoc p ps)
  then show ?case
    by (auto simp: gather_snoc Let_def split: sum.splits if_splits)
qed

lemma gather_sets:
  "gatherParameterNames ps = Inr (required, all) \<Longrightarrow>
     distinct required \<and> distinct all \<and> set all = pid ` set ps \<and>
     set required = pid ` {p \<in> set ps. isRequired p}"
proof (induction ps arbitrary: required all rule: rev_induct)
  case Nil
  then show ?case by (simp add: gatherParameterNames_def)
next
  case (snoc p ps)
  then show ?case
    by (auto simp: gather_snoc Let_def set_Set_add distinct_Set_add split: sum.splits if_splits)
qed

lemma length_less_iff:
  assumes "distinct r" "distinct a" "set r \<subseteq> set a"
  shows "length (Set_add x r) < length (Set_add x a) \<longleftrightarrow> (\<exists>y \<in> set a. y \<notin> set r \<and> y \<noteq> x)"
proof -
  have dr: "distinct (Set_add x r)" and da: "distinct (Set_add x a)"
    using assms by (simp_all add: distinct_Set_add)
  have sub: "set (Set_add x r) \<subseteq> set (Set_add x a)"
    using assms by (auto simp: set_Set_add)
  have "length (Set_add x r) = card (set (Set_add x r))" "length (Set_add x a) = card (set (Set_add x a))"
    using dr da by (simp_all add: distinct_card)
  moreover have "card (set (Set_add x r)) < card (set (Set_add x a)) \<longleftrightarrow> set (Set_add x r) \<noteq> set (Set_add x a)"
    using sub by (metis List.finite_set card_seteq linorder_not_less psubsetI psubset_card_mono order_less_irrefl)
  ultimately show ?thesis using assms by (auto simp: set_Set_add)
qed

lemma rfo_snoc:
  "requiredFollowsOptional (ps @ [p]) \<longleftrightarrow> requiredFollowsOptional ps \<or> (isRequired p \<and> (\<exists>q \<in> set ps. \<not> isRequired q))"
proof
  assume "requiredFollowsOptional (ps @ [p])"
  then obtain j i where j: "j < Suc (length ps)" and i: "i < j"
    and ni: "\<not> isRequired ((ps @ [p]) ! i)" and rj: "isRequired ((ps @ [p]) ! j)"
    unfolding requiredFollowsOptional_def by auto
  show "requiredFollowsOptional ps \<or> (isRequired p \<and> (\<exists>q \<in> set ps. \<not> isRequired q))"
  proof (cases "j < length ps")
    case True
    with i ni rj have "\<not> isRequired (ps ! i)" "isRequired (ps ! j)" by (simp_all add: nth_append)
    with True i show ?thesis unfolding requiredFollowsOptional_def by blast
  next
    case False
    with j have jl: "j = length ps" by simp
    with i ni rj have "i < length ps" "\<not> isRequired (ps ! i)" "isRequired p" by (simp_all add: nth_append)
    then show ?thesis using nth_mem by blast
  qed
next
  assume "requiredFollowsOptional ps \<or> (isRequired p \<and> (\<exists>q \<in> set ps. \<not> isRequired q))"
  then show "requiredFollowsOptional (ps @ [p])"
  proof
    assume "requiredFollowsOptional ps"
    then obtain j i where "j < length ps" "i < j" "\<not> isRequired (ps ! i)" "isRequired (ps ! j)"
      unfolding requiredFollowsOptional_def by auto
    then have "j < length (ps @ [p]) \<and> i < j \<and> \<not> isRequired ((ps @ [p]) ! i) \<and> isRequired ((ps @ [p]) ! j)"
      by (simp add: nth_append)
    then show ?thesis unfolding requiredFollowsOptional_def by blast
  next
    assume a: "isRequired p \<and> (\<exists>q \<in> set ps. \<not> isRequired q)"
    then obtain q where "q \<in> set ps" "\<not> isRequired q" by blast
    then obtain i where "i < length ps" "ps ! i = q" by (meson in_set_conv_nth)
    with a \<open>\<not> isRequired q\<close> have "length ps < length (ps @ [p]) \<and> i < length ps \<and>
        \<not> isRequired ((ps @ [p]) ! i) \<and> isRequired ((ps @ [p]) ! length ps)"
      by (simp add: nth_append)
    then show ?thesis unfolding requiredFollowsOptional_def by blast
  qed
qed

lemma scan_step_distinct:
  assumes g: "gatherParameterNames ps = Inr (required, all)"
      and d: "distinct (map pid (ps @ [p]))"
  shows "scanParameter p (required, all) =
           (if isRequired p \<and> (\<exists>q \<in> set ps. \<not> isRequired q) then Inl ParameterOrderError
            else Inr (if isRequired p then Set_add (pid p) required else required,
                      Set_add (pid p) all))"
proof -
  from gather_sets[OF g] have dr: "distinct required" and da: "distinct all"
    and sa: "set all = pid ` set ps" and sr: "set required = pid ` {p \<in> set ps. isRequired p}"
    by auto
  have sub: "set required \<subseteq> set all" using sa sr by auto
  have inj: "\<And>q q'. q \<in> set ps \<Longrightarrow> q' \<in> set ps \<Longrightarrow> pid q = pid q' \<Longrightarrow> q = q'"
    using d by (auto simp: distinct_map inj_on_def)
  have fresh: "\<And>q. q \<in> set ps \<Longrightarrow> pid q \<noteq> pid p"
  proof -
    fix q assume "q \<in> set ps"
    then have "pid q \<in> set (map pid ps)" by simp
    moreover have "pid p \<notin> set (map pid ps)" using d by simp
    ultimately show "pid q \<noteq> pid p" by metis
  qed
  have "(\<exists>y \<in> set all. y \<notin> set required \<and> y \<noteq> pid p) \<longleftrightarrow> (\<exists>q \<in> set ps. \<not> isRequired q)"
    using sa sr inj fresh by (auto, blast)
  then show ?thesis
    using length_less_iff[OF dr da sub, of "pid p"] by (auto simp: Let_def)
qed

lemma gather_distinct:
  "distinct (map pid ps) \<Longrightarrow>
     (gatherParameterNames ps = Inl ParameterOrderError) = requiredFollowsOptional ps"
proof (induction ps rule: rev_induct)
  case Nil
  then show ?case by (simp add: gatherParameterNames_def requiredFollowsOptional_def)
next
  case (snoc p ps)
  then have d: "distinct (map pid ps)" by simp
  show ?case
  proof (cases "gatherParameterNames ps")
    case (Inl e)
    then show ?thesis using snoc.IH[OF d] gather_error[OF Inl]
      by (simp add: gather_snoc rfo_snoc)
  next
    case (Inr names)
    obtain required all where n: "names = (required, all)" by (cases names)
    show ?thesis
      using snoc.IH[OF d] Inr n scan_step_distinct[OF Inr[unfolded n] snoc.prems]
      by (simp add: gather_snoc rfo_snoc)
  qed
qed

lemma gather_all_required:
  "\<forall>p \<in> set ps. isRequired p \<Longrightarrow> \<exists>names. gatherParameterNames ps = Inr (names, names)"
proof (induction ps rule: rev_induct)
  case Nil
  then show ?case by (simp add: gatherParameterNames_def)
next
  case (snoc p ps)
  then show ?case by (auto simp: gather_snoc Let_def)
qed

lemma gather_passes:
  "\<not> requiredFollowsOptional ps \<Longrightarrow> \<exists>names. gatherParameterNames ps = Inr names"
proof (induction ps rule: rev_induct)
  case Nil
  then show ?case by (simp add: gatherParameterNames_def)
next
  case (snoc p ps)
  then obtain names where g: "gatherParameterNames ps = Inr names"
    by (auto simp: rfo_snoc)
  show ?case
  proof (cases "isRequired p")
    case True
    with snoc.prems have "\<forall>q \<in> set ps. isRequired q" by (auto simp: rfo_snoc)
    from gather_all_required[OF this] True show ?thesis
      by (auto simp: gather_snoc Let_def)
  next
    case False
    then show ?thesis using g by (cases names) (auto simp: gather_snoc Let_def)
  qed
qed


section \<open>Analysis of expressions and parameters\<close>

lemma VariableExpression_analyze_context:
  "VariableExpression_analyze x c = Inr c' \<Longrightarrow> c' = c"
  by (auto simp: VariableExpression_analyze_def split: sum.splits)

lemma Expression_analyze_context:
  "Expression_analyze e c = Inr c' \<Longrightarrow> c' = c"
  "Arguments_analyze as c = Inr c' \<Longrightarrow> c' = c"
  by (induction e c and as c arbitrary: c' and c' rule: Expression_analyze_Arguments_analyze.induct)
     (auto simp: VariableExpression_analyze_context split: sum.splits if_splits)


lemma Parameter_analyze_Inr:
  "Parameter_analyze p c = Inr c' \<Longrightarrow>
     pid p \<notin> fst ` set (declarations c) \<and>
     c' = Context (declarations c @ [(pid p, DeclaredParameter p)]) (parent c) (inLoop c) (enclosingFunction c)"
  by (auto simp: Parameter_analyze_def addVariable_def dest: Expression_analyze_context
      split: option.splits sum.splits if_splits)

lemma Parameters_analyze_Inr:
  "forEach Parameter_analyze ps c = Inr c' \<Longrightarrow>
     distinct (map pid ps) \<and> pid ` set ps \<inter> fst ` set (declarations c) = {} \<and>
     c' = Context (declarations c @ map (\<lambda>p. (pid p, DeclaredParameter p)) ps) (parent c)
            (inLoop c) (enclosingFunction c)"
proof (induction ps arbitrary: c)
  case Nil
  then show ?case by simp
next
  case (Cons p ps)
  then obtain c1 where p: "Parameter_analyze p c = Inr c1" and r: "forEach Parameter_analyze ps c1 = Inr c'"
    by (auto split: sum.splits)
  from Parameter_analyze_Inr[OF p] Cons.IH[OF r] show ?case by auto
qed


section \<open>Scan points of FunctionObject.analyze\<close>

lemma gather_prefix_error:
  "gatherParameterNames (take n ps) = Inl e \<Longrightarrow> gatherParameterNames ps = Inl e"
proof -
  assume a: "gatherParameterNames (take n ps) = Inl e"
  have "gatherParameterNames ps = forEach scanParameter (take n ps @ drop n ps) ([], [])"
    by (simp add: gatherParameterNames_def)
  also have "\<dots> = Inl e"
    using a unfolding forEach_append gatherParameterNames_def by simp
  finally show ?thesis .
qed

lemma gather_sizes:
  assumes "gatherParameterNames ps = Inr (required, all)"
  shows "length required \<le> length all"
proof -
  from gather_sets[OF assms] have d: "distinct required" "distinct all"
    and sub: "set required \<subseteq> set all"
    by auto
  have "card (set required) \<le> card (set all)"
    using sub by (simp add: card_mono)
  with d show ?thesis by (simp add: distinct_card)
qed

lemma gather_last_required:
  assumes "gatherParameterNames (ps @ [p]) = Inr (required, all)" "isRequired p"
  shows "length required = length all"
proof -
  from assms obtain r a where "gatherParameterNames ps = Inr (r, a)"
    and "scanParameter p (r, a) = Inr (required, all)"
    by (auto simp: gather_snoc split: sum.splits)
  with assms(2) have "\<not> length required < length all"
    by (auto simp: Let_def split: if_splits)
  with gather_sizes[OF assms(1)] show ?thesis by simp
qed

lemma FunctionObject_analyze_scan_error:
  "gatherParameterNames params = Inl e \<Longrightarrow>
     \<exists>e'. FunctionObject_analyze (FunctionObject fid params body) c = Inl e'"
  by (auto split: sum.splits)

text \<open>
  C3, as amended. Take the scan of the first \<open>n\<close> parameters. If it throws, the error is
  \<open>ParameterOrderError\<close> and \<open>FunctionObject.analyze\<close> fails. If it does not,
  \<open>requiredParameterNames\<close> is never larger than \<open>allParameterNames\<close>; the two sizes are
  equal when the parameter scanned last is required; and they differ only when an optional
  parameter has been scanned. The source compares the sizes inside \<open>if (p.isRequired)\<close>:
  after an optional parameter no comparison is made, so the scan of an optional parameter
  never throws. When the scan throws and the parameters themselves have analyzed, the
  error of \<open>FunctionObject.analyze\<close> is \<open>ParameterOrderError\<close>.
\<close>

theorem scan_point_sizes:
  assumes "n \<le> length params"
  shows "case gatherParameterNames (take n params) of
           Inl e \<Rightarrow>
             e = ParameterOrderError \<and> gatherParameterNames params = Inl ParameterOrderError \<and>
             (\<exists>e'. FunctionObject_analyze (FunctionObject fid params body) c = Inl e') \<and>
             (forEach Parameter_analyze params c = Inr analyzed \<longrightarrow>
                FunctionObject_analyze (FunctionObject fid params body) c
                  = Inl ParameterOrderError)
         | Inr (required, all) \<Rightarrow>
             length required \<le> length all \<and>
             (0 < n \<and> isRequired (params ! (n - 1)) \<longrightarrow> length required = length all) \<and>
             (length required < length all \<longrightarrow> (\<exists>p \<in> set (take n params). \<not> isRequired p)) \<and>
             (n < length params \<and> \<not> isRequired (params ! n) \<longrightarrow>
                (\<exists>names. gatherParameterNames (take (Suc n) params) = Inr names))"
proof (cases "gatherParameterNames (take n params)")
  case (Inl e)
  from gather_error[OF Inl] have e: "e = ParameterOrderError" .
  from gather_prefix_error[OF Inl] have g: "gatherParameterNames params = Inl e" .
  have "FunctionObject_analyze (FunctionObject fid params body) c = Inl ParameterOrderError"
    if "forEach Parameter_analyze params c = Inr analyzed"
    using that g e by simp
  with FunctionObject_analyze_scan_error[OF g] e g Inl show ?thesis by simp
next
  case (Inr names)
  obtain required all where n: "names = (required, all)" by (cases names)
  have le: "length required \<le> length all"
    using gather_sizes Inr n by simp
  have eq: "length required = length all" if "0 < n" "isRequired (params ! (n - 1))"
  proof -
    from that assms have "take n params = take (n - 1) params @ [params ! (n - 1)]"
      by (metis Suc_pred' Suc_le_lessD take_Suc_conv_app_nth)
    with Inr n that gather_last_required show ?thesis by metis
  qed
  have opt: "\<exists>p \<in> set (take n params). \<not> isRequired p" if "length required < length all"
  proof (rule ccontr)
    assume "\<not> (\<exists>p \<in> set (take n params). \<not> isRequired p)"
    then have "\<forall>p \<in> set (take n params). isRequired p" by blast
    from gather_all_required[OF this] Inr n that show False by auto
  qed
  have next_optional: "\<exists>names. gatherParameterNames (take (Suc n) params) = Inr names"
    if "n < length params" "\<not> isRequired (params ! n)"
  proof -
    from that(1) have "take (Suc n) params = take n params @ [params ! n]"
      by (rule take_Suc_conv_app_nth)
    with Inr n that(2) show ?thesis
      by (simp add: gather_snoc Let_def)
  qed
  from le eq opt next_optional Inr n show ?thesis by simp
qed

theorem scan_point_sizes_witness:
  "(1::nat) \<le> length [Parameter ''a'' None, Parameter ''b'' (Some (NumericLiteral 1))] \<and>
   gatherParameterNames (take 1 [Parameter ''a'' None, Parameter ''b'' (Some (NumericLiteral 1))])
     = Inr ([''a''], [''a'']) \<and>
   isRequired ([Parameter ''a'' None, Parameter ''b'' (Some (NumericLiteral 1))] ! (1 - 1)) \<and>
   length [''a''] = length [''a'']"
  using scan_point_sizes[of 1 "[Parameter ''a'' None, Parameter ''b'' (Some (NumericLiteral 1))]"]
  by (simp add: gatherParameterNames_def Set_add_def isRequired_def Let_def)

text \<open>
  C3 as stated fails at the scan point after \<open>b\<close> in \<open>(a, b = 1)\<close>: the sizes are 1 and 2,
  and the analysis succeeds.
\<close>

theorem scan_point_sizes_counterexample:
  "gatherParameterNames (take 2 [Parameter ''a'' None, Parameter ''b'' (Some (NumericLiteral 1))])
     = Inr ([''a''], [''a'', ''b'']) \<and>
   length [''a''] \<noteq> length [''a'', ''b''] \<and>
   FunctionObject_analyze
       (FunctionObject ''f'' [Parameter ''a'' None, Parameter ''b'' (Some (NumericLiteral 1))] [])
       rootContext
     = Inr (([''a''], [''a'', ''b'']),
            Context [(''a'', DeclaredParameter (Parameter ''a'' None)),
                     (''b'', DeclaredParameter (Parameter ''b'' (Some (NumericLiteral 1))))]
              None False None)"
  by (simp add: gatherParameterNames_def Set_add_def isRequired_def Parameter_analyze_def
      addVariable_def rootContext_def Let_def)

section \<open>Required parameters after optional ones\<close>

lemma Statement_analyze_FunctionDeclaration_params_error:
  "forEach Parameter_analyze params (createChildContextForFunctionBody c fid) = Inl e \<Longrightarrow>
     Statement_analyze (FunctionDeclaration fid params body) c = Inl e"
  by simp

lemma Statement_analyze_FunctionDeclaration_scan_error:
  "forEach Parameter_analyze params (createChildContextForFunctionBody c fid) = Inr lc \<Longrightarrow>
   gatherParameterNames params = Inl e \<Longrightarrow>
     Statement_analyze (FunctionDeclaration fid params body) c = Inl e"
  by simp

text \<open>
  C2, as amended. When a required parameter follows an optional one, analysis of the
  declaration fails, in \<open>FunctionDeclaration.analyze\<close> and in \<open>FunctionObject.analyze\<close>
  alike; the error is \<open>ParameterOrderError\<close> whenever the analysis of the parameters
  themselves, which runs first, has succeeded, and otherwise the error of that analysis.
  The scan alone throws it whenever the parameter names are pairwise distinct. When no
  required parameter follows an optional one, the scan passes.
\<close>

theorem required_after_optional_rejected:
  "(requiredFollowsOptional params \<and>
      forEach Parameter_analyze params (createChildContextForFunctionBody c fid) = Inr localContext
      \<longrightarrow> Statement_analyze (FunctionDeclaration fid params body) c = Inl ParameterOrderError)
   \<and> (requiredFollowsOptional params \<and> forEach Parameter_analyze params c = Inr c'
      \<longrightarrow> FunctionObject_analyze (FunctionObject fid params body) c = Inl ParameterOrderError)
   \<and> (requiredFollowsOptional params
      \<longrightarrow> (\<exists>e. Statement_analyze (FunctionDeclaration fid params body) c = Inl e)
        \<and> (\<exists>e. FunctionObject_analyze (FunctionObject fid params body) c = Inl e))
   \<and> (requiredFollowsOptional params \<and> distinct (map pid params)
      \<longrightarrow> gatherParameterNames params = Inl ParameterOrderError)
   \<and> (\<not> requiredFollowsOptional params \<longrightarrow> (\<exists>names. gatherParameterNames params = Inr names))
   \<and> (forEach Parameter_analyze params (createChildContextForFunctionBody c fid) = Inl earlier
      \<longrightarrow> Statement_analyze (FunctionDeclaration fid params body) c = Inl earlier)
   \<and> (forEach Parameter_analyze params c = Inl earlier
      \<longrightarrow> FunctionObject_analyze (FunctionObject fid params body) c = Inl earlier)"
proof -
  have scan: "gatherParameterNames params = Inl ParameterOrderError"
    if "requiredFollowsOptional params" "distinct (map pid params)"
    using that gather_distinct by blast
  have decl: "Statement_analyze (FunctionDeclaration fid params body) c = Inl ParameterOrderError"
    if "requiredFollowsOptional params"
       "forEach Parameter_analyze params (createChildContextForFunctionBody c fid) = Inr lc" for lc
  proof -
    from Parameters_analyze_Inr[OF that(2)] have "distinct (map pid params)" by blast
    from Statement_analyze_FunctionDeclaration_scan_error[OF that(2) scan[OF that(1) this]]
    show ?thesis .
  qed
  have obj: "FunctionObject_analyze (FunctionObject fid params body) c = Inl ParameterOrderError"
    if "requiredFollowsOptional params" "forEach Parameter_analyze params c = Inr lc" for lc
  proof -
    from Parameters_analyze_Inr[OF that(2)] have "distinct (map pid params)" by blast
    from scan[OF that(1) this] that(2) show ?thesis by simp
  qed
  have fails1: "\<exists>e. Statement_analyze (FunctionDeclaration fid params body) c = Inl e"
    if "requiredFollowsOptional params"
  proof (cases "forEach Parameter_analyze params (createChildContextForFunctionBody c fid)")
    case (Inl e)
    from Statement_analyze_FunctionDeclaration_params_error[OF Inl] show ?thesis by blast
  next
    case (Inr lc)
    from decl[OF that Inr] show ?thesis by blast
  qed
  have fails2: "\<exists>e. FunctionObject_analyze (FunctionObject fid params body) c = Inl e"
    if "requiredFollowsOptional params"
  proof (cases "forEach Parameter_analyze params c")
    case (Inl e)
    then show ?thesis by simp
  next
    case (Inr lc)
    from obj[OF that Inr] show ?thesis by blast
  qed
  have earlier1: "Statement_analyze (FunctionDeclaration fid params body) c = Inl earlier"
    if "forEach Parameter_analyze params (createChildContextForFunctionBody c fid) = Inl earlier"
    using that by (rule Statement_analyze_FunctionDeclaration_params_error)
  have earlier2: "FunctionObject_analyze (FunctionObject fid params body) c = Inl earlier"
    if "forEach Parameter_analyze params c = Inl earlier"
    using that by simp
  from scan decl obj fails1 fails2 gather_passes[of params] earlier1 earlier2
  show ?thesis by blast
qed

theorem required_after_optional_rejected_witness:
  "requiredFollowsOptional [Parameter ''b'' (Some (NumericLiteral 1)), Parameter ''a'' None] \<and>
   Statement_analyze
       (FunctionDeclaration ''f'' [Parameter ''b'' (Some (NumericLiteral 1)), Parameter ''a'' None] [])
       rootContext
     = Inl ParameterOrderError \<and>
   \<not> requiredFollowsOptional [Parameter ''a'' None, Parameter ''b'' (Some (NumericLiteral 1))] \<and>
   (\<exists>names. gatherParameterNames [Parameter ''a'' None, Parameter ''b'' (Some (NumericLiteral 1))]
      = Inr names)"
proof -
  let ?bad = "[Parameter ''b'' (Some (NumericLiteral 1)), Parameter ''a'' None]"
  let ?good = "[Parameter ''a'' None, Parameter ''b'' (Some (NumericLiteral 1))]"
  have "(1::nat) < length ?bad \<and> (0::nat) < 1 \<and> \<not> isRequired (?bad ! 0) \<and> isRequired (?bad ! 1)"
    by (simp add: isRequired_def)
  then have bad: "requiredFollowsOptional ?bad"
    unfolding requiredFollowsOptional_def by blast
  have good: "\<not> requiredFollowsOptional ?good"
    by (auto simp: requiredFollowsOptional_def isRequired_def less_Suc_eq numeral_2_eq_2)
  have params: "forEach Parameter_analyze ?bad (createChildContextForFunctionBody rootContext ''f'')
      = Inr (Context [(''b'', DeclaredParameter (Parameter ''b'' (Some (NumericLiteral 1)))),
                      (''a'', DeclaredParameter (Parameter ''a'' None))]
               (Some rootContext) False (Some ''f''))"
    by (simp add: Parameter_analyze_def addVariable_def createChildContextForFunctionBody_def)
  from required_after_optional_rejected[of ?bad rootContext "''f''" _ "[]"] bad params
  have 1: "Statement_analyze (FunctionDeclaration ''f'' ?bad []) rootContext = Inl ParameterOrderError"
    by blast
  from required_after_optional_rejected[of ?good] good
  have 2: "\<exists>names. gatherParameterNames ?good = Inr names"
    by blast
  from bad 1 good 2 show ?thesis by blast
qed

text \<open>
  C2 as stated fails for \<open>def f(a = 1, a)\<close>: the required \<open>a\<close> follows the optional \<open>a\<close>,
  the analysis of the parameters throws \<open>DuplicateDeclarationError\<close> first, and the scan
  itself would pass, because the second \<open>a\<close> enlarges neither set.
\<close>

theorem required_after_optional_rejected_counterexample:
  "requiredFollowsOptional [Parameter ''a'' (Some (NumericLiteral 1)), Parameter ''a'' None] \<and>
   Statement_analyze
       (FunctionDeclaration ''f'' [Parameter ''a'' (Some (NumericLiteral 1)), Parameter ''a'' None] [])
       rootContext
     = Inl (DuplicateDeclarationError ''a'') \<and>
   gatherParameterNames [Parameter ''a'' (Some (NumericLiteral 1)), Parameter ''a'' None]
     = Inr ([''a''], [''a''])"
proof -
  let ?ps = "[Parameter ''a'' (Some (NumericLiteral 1)), Parameter ''a'' None]"
  have "(1::nat) < length ?ps \<and> (0::nat) < 1 \<and> \<not> isRequired (?ps ! 0) \<and> isRequired (?ps ! 1)"
    by (simp add: isRequired_def)
  then have 1: "requiredFollowsOptional ?ps"
    unfolding requiredFollowsOptional_def by blast
  have 2: "Statement_analyze (FunctionDeclaration ''f'' ?ps []) rootContext
      = Inl (DuplicateDeclarationError ''a'')"
    by (simp add: Parameter_analyze_def addVariable_def createChildContextForFunctionBody_def)
  have 3: "gatherParameterNames ?ps = Inr ([''a''], [''a''])"
    by (simp add: gatherParameterNames_def Set_add_def isRequired_def Let_def)
  from 1 2 3 show ?thesis by blast
qed


section \<open>Assignment\<close>






section \<open>Function declarations: the function is declared after its parameters\<close>






lemma map_of_parameters:
  "map_of (map (\<lambda>p. (pid p, DeclaredParameter p)) ps) x = None \<longleftrightarrow> x \<notin> pid ` set ps"
  by (simp add: map_of_eq_None_iff image_image)






lemma forEach_prefix_error:
  "forEach f xs s = Inl e \<Longrightarrow> forEach f (xs @ ys) s = Inl e"
  by (simp add: forEach_append)



















section \<open>FunctionObject.optimize\<close>

lemma FunctionObject_optimize_eq:
  "FunctionObject_optimize optP optS (FunctionObject fid params body) =
     (FunctionObject fid (map (\<lambda>p. fst (optP p)) params) (map (\<lambda>s. fst (optS s)) body),
      ReturnsThis)"
  by (simp add: Let_def)

text \<open>
  C9. Whatever the \<open>optimize\<close> methods of the parameters and statements do and return,
  \<open>FunctionObject.optimize\<close> returns the node it was called on, never another node and
  never \<open>null\<close>: the caller receives the same function, with the same identifier, each
  parameter and each statement of the body in its place, as its own \<open>optimize\<close> left it.
\<close>

theorem FunctionObject_optimize_returns_itself:
  "snd (FunctionObject_optimize optimizeParameter optimizeStatement
          (FunctionObject fid params body)) = ReturnsThis
   \<and> received (FunctionObject_optimize optimizeParameter optimizeStatement
          (FunctionObject fid params body))
       = Some (FunctionObject fid
                 (map (\<lambda>p. fst (optimizeParameter p)) params)
                 (map (\<lambda>s. fst (optimizeStatement s)) body))"
  by (simp add: FunctionObject_optimize_eq)

text \<open>
  C5 at \<open>def f(x): x = x\<close> and at \<open>def g(): if false: return\<close>, both of which analyze
  successfully. The \<open>optimize\<close> of the assignment, and of the \<open>if\<close> whose only branch is
  statically false, returns the removal sentinel, and a statement list that stores what
  \<open>optimize\<close> returns drops the statement; but the body of the function still holds it
  after \<open>FunctionObject.optimize\<close>, the \<open>if\<close> without any branch left.
\<close>

theorem FunctionObject_optimize_keeps_removed_statement:
  "received (Statement_optimize (AssignmentStatement [''x''] [VariableExpression ''x''])) = None
   \<and> Body_optimize [AssignmentStatement [''x''] [VariableExpression ''x'']] = []
   \<and> (\<exists>r. FunctionObject_analyze
               (FunctionObject ''f'' [Parameter ''x'' None]
                  [AssignmentStatement [''x''] [VariableExpression ''x'']])
               (createChildContextForFunctionBody rootContext ''f'') = Inr r)
   \<and> received (FunctionObject_optimize Parameter_optimize Statement_optimize
        (FunctionObject ''f'' [Parameter ''x'' None]
           [AssignmentStatement [''x''] [VariableExpression ''x'']]))
      = Some (FunctionObject ''f'' [Parameter ''x'' None]
           [AssignmentStatement [''x''] [VariableExpression ''x'']])
   \<and> received (Statement_optimize
        (IfStatement [Case (BooleanLiteral False) [ReturnStatement None]] None)) = None
   \<and> (\<exists>r. FunctionObject_analyze
               (FunctionObject ''g'' []
                  [IfStatement [Case (BooleanLiteral False) [ReturnStatement None]] None])
               (createChildContextForFunctionBody rootContext ''g'') = Inr r)
   \<and> received (FunctionObject_optimize Parameter_optimize Statement_optimize
        (FunctionObject ''g'' []
           [IfStatement [Case (BooleanLiteral False) [ReturnStatement None]] None]))
      = Some (FunctionObject ''g'' [] [IfStatement [] None])"
proof -
  have 1: "received (Statement_optimize (AssignmentStatement [''x''] [VariableExpression ''x'']))
      = None"
    by simp
  have 2: "Body_optimize [AssignmentStatement [''x''] [VariableExpression ''x'']] = []"
    by simp
  have 3: "\<exists>r. FunctionObject_analyze
               (FunctionObject ''f'' [Parameter ''x'' None]
                  [AssignmentStatement [''x''] [VariableExpression ''x'']])
               (createChildContextForFunctionBody rootContext ''f'') = Inr r"
    by (simp add: Parameter_analyze_def addVariable_def createChildContextForFunctionBody_def
        gatherParameterNames_def Set_add_def isRequired_def Let_def
        AssignmentStatement_analyze_def VariableExpression_analyze_def)
  have 4: "received (FunctionObject_optimize Parameter_optimize Statement_optimize
        (FunctionObject ''f'' [Parameter ''x'' None]
           [AssignmentStatement [''x''] [VariableExpression ''x'']]))
      = Some (FunctionObject ''f'' [Parameter ''x'' None]
           [AssignmentStatement [''x''] [VariableExpression ''x'']])"
    by (simp add: Parameter_optimize_def)
  have 5: "received (Statement_optimize
        (IfStatement [Case (BooleanLiteral False) [ReturnStatement None]] None)) = None"
    by (simp add: isStaticallyFalse_def)
  have 6: "\<exists>r. FunctionObject_analyze
               (FunctionObject ''g'' []
                  [IfStatement [Case (BooleanLiteral False) [ReturnStatement None]] None])
               (createChildContextForFunctionBody rootContext ''g'') = Inr r"
    by (simp add: createChildContextForFunctionBody_def createChildContext_def
        gatherParameterNames_def)
  have 7: "received (FunctionObject_optimize Parameter_optimize Statement_optimize
        (FunctionObject ''g'' []
           [IfStatement [Case (BooleanLiteral False) [ReturnStatement None]] None]))
      = Some (FunctionObject ''g'' [] [IfStatement [] None])"
    by (simp add: isStaticallyFalse_def)
  from 1 2 3 4 5 6 7 show ?thesis by blast
qed

section \<open>The compiler driver and analysis\<close>

text \<open>
  C10. For a source text that parses, \<open>compile\<close> with \<open>astOnly\<close> returns the inspection
  of the program as parsed, whatever \<open>analyze\<close> would do: no error of the analysis can
  come out. In every other mode the program is analyzed first: an error of the analysis is
  the result, and inspection, optimization and generation work on the analyzed program.
\<close>

theorem compile_astOnly_skips_analysis:
  assumes "parse sourceCode = Inr program"
  shows "(truthy (astOnly options) \<longrightarrow>
            compile parse inspect analyze optimize gen sourceCode options = Inr (inspect program))
     \<and> (\<not> truthy (astOnly options) \<longrightarrow>
          (\<forall>e. analyze program = Inl e \<longrightarrow>
             compile parse inspect analyze optimize gen sourceCode options = Inl e)
        \<and> (\<forall>analyzed. analyze program = Inr analyzed \<longrightarrow>
             compile parse inspect analyze optimize gen sourceCode options =
               (if truthy (frontEndOnly options) then Inr (inspect analyzed)
                else if truthy (shouldOptimize options) then
                  (case optimize analyzed of
                     Inl e \<Rightarrow> Inl e
                   | Inr optimized \<Rightarrow> gen optimized)
                else gen analyzed)))"
  using assms by (simp add: compile_def)


theorem compile_astOnly_skips_analysis_witness:
  "(\<lambda>s. Inr [BreakStatement] :: error + statement list) ''break'' = Inr [BreakStatement]
   \<and> compile (\<lambda>s. Inr [BreakStatement]) (\<lambda>p. ''Program'') Program_analyze Inr
         (\<lambda>p. Inr ''break;'') ''break''
         \<lparr>astOnly = Some True, frontEndOnly = None, shouldOptimize = None\<rparr>
       = Inr ''Program''
   \<and> compile (\<lambda>s. Inr [BreakStatement]) (\<lambda>p. ''Program'') Program_analyze Inr
         (\<lambda>p. Inr ''break;'') ''break''
         \<lparr>astOnly = None, frontEndOnly = None, shouldOptimize = None\<rparr>
       = Inl IllegalBreakError"
proof -
  let ?parse = "\<lambda>s :: string. Inr [BreakStatement] :: error + statement list"
  let ?inspect = "\<lambda>p :: statement list. ''Program''"
  let ?optimize = "Inr :: statement list \<Rightarrow> error + statement list"
  let ?gen = "\<lambda>p :: statement list. Inr ''break;'' :: error + string"
  have p: "?parse ''break'' = Inr [BreakStatement]" by simp
  have a: "Program_analyze [BreakStatement] = Inl IllegalBreakError"
    by (simp add: Program_analyze_def rootContext_def)
  from compile_astOnly_skips_analysis[OF p, of
         "\<lparr>astOnly = Some True, frontEndOnly = None, shouldOptimize = None\<rparr>"
         ?inspect Program_analyze ?optimize ?gen]
  have 1: "compile ?parse ?inspect Program_analyze ?optimize ?gen ''break''
         \<lparr>astOnly = Some True, frontEndOnly = None, shouldOptimize = None\<rparr>
       = Inr ''Program''"
    by (simp add: truthy_def)
  from compile_astOnly_skips_analysis[OF p, of
         "\<lparr>astOnly = None, frontEndOnly = None, shouldOptimize = None\<rparr>"
         ?inspect Program_analyze ?optimize ?gen] a
  have 2: "compile ?parse ?inspect Program_analyze ?optimize ?gen ''break''
         \<lparr>astOnly = None, frontEndOnly = None, shouldOptimize = None\<rparr>
       = Inl IllegalBreakError"
    by (simp add: truthy_def)
  from 1 2 show ?thesis by simp
qed

end
